theory Spec2Isabelle
  imports Complex_Main
begin

section \<open>Data model of \<open>src/renderer/menu/input-tracker.ts\<close>\<close>

text \<open>
  The tracker classifies pointer, touch and key events into one of four logical input
  states. JavaScript numbers are modelled as real numbers: coordinates, the drag
  threshold, distance and angle are \<^typ>\<open>real\<close>, so rounding, NaN and infinities of
  IEEE doubles are outside the model.
\<close>

datatype InputState = eReleased | eClicked | eMarkingMode | eTurboMode

record IVec2 =
  x :: real
  y :: real

text \<open>The four modifier flags that mouse, touch and keyboard events all carry.\<close>

record ModifierKeys =
  ctrlKey :: bool
  metaKey :: bool
  shiftKey :: bool
  altKey :: bool

record Touch =
  clientX :: real
  clientY :: real

text \<open>
  \<open>MouseEvent clientX clientY buttons keys\<close> and \<open>TouchEvent touches keys\<close>: the two
  shapes of \<open>event: MouseEvent | TouchEvent\<close>, with the fields the tracker reads.
\<close>

datatype PointerEvent =
    MouseEvent real real nat ModifierKeys
  | TouchEvent "Touch list" ModifierKeys

text \<open>Reading \<open>event.touches[0].clientX\<close> of an empty touch list throws a TypeError.\<close>

datatype error = TypeError

text \<open>
  The fields of the class. \<open>clickPosition\<close> is assigned \<open>null\<close> by \<open>onPointerUpEvent\<close>, so
  it is an option. \<open>ignoreMotionEvents\<close> is only ever assigned 0 and 2 and decremented
  while positive, so it is a natural number. \<open>emitted\<close> records the arguments of the
  \<open>pointer-motion\<close> events emitted so far, oldest first.
\<close>

record InputTracker =
  state :: InputState
  absolutePosition :: IVec2
  relativePosition :: IVec2
  angle :: real
  distance :: real
  deferredTurboMode :: bool
  clickPosition :: "IVec2 option"
  keydownPosition :: IVec2
  anyKeyPressed :: bool
  ignoreMotionEvents :: nat
  dragThreshold :: real
  enableMarkingMode :: bool
  enableTurboMode :: bool
  emitted :: "IVec2 list"

text \<open>The field initialisers of the class (lines 46--87).\<close>

definition newInputTracker :: InputTracker where
  "newInputTracker =
     \<lparr> state = eReleased,
       absolutePosition = \<lparr> x = 0, y = 0 \<rparr>,
       relativePosition = \<lparr> x = 0, y = 0 \<rparr>,
       angle = 0,
       distance = 0,
       deferredTurboMode = False,
       clickPosition = Some \<lparr> x = 0, y = 0 \<rparr>,
       keydownPosition = \<lparr> x = 0, y = 0 \<rparr>,
       anyKeyPressed = False,
       ignoreMotionEvents = 0,
       dragThreshold = 15,
       enableMarkingMode = True,
       enableTurboMode = True,
       emitted = [] \<rparr>"

section \<open>The vector helpers of \<open>../math\<close>\<close>

text \<open>
  Modelled from the spec: the module \<open>../math\<close> (\<open>subtract\<close>, \<open>getLength\<close>, \<open>getDistance\<close>,
  \<open>getAngle\<close>) is imported by the tracker but is not among the source files. The spec
  calls them the vector-math helpers (distance, length, angle, subtraction), says that
  \<open>distance = |relativePosition|\<close>, and fixes the angle convention: degrees, 0 is up,
  increasing clockwise (90 is right, 180 is down, 270 is left), in screen coordinates
  whose second axis points down. The spec does not say which angle the zero vector has;
  the model gives it 0, and nothing below depends on that choice.
\<close>

definition subtract :: "IVec2 \<Rightarrow> IVec2 \<Rightarrow> IVec2" where
  "subtract a b = \<lparr> x = x a - x b, y = y a - y b \<rparr>"

definition getLength :: "IVec2 \<Rightarrow> real" where
  "getLength v = sqrt ((x v)\<^sup>2 + (y v)\<^sup>2)"

definition getDistance :: "IVec2 \<Rightarrow> IVec2 \<Rightarrow> real" where
  "getDistance a b = getLength (subtract a b)"

definition getAngle :: "IVec2 \<Rightarrow> real" where
  "getAngle v =
     (if getLength v = 0 then 0
      else
        (let up = arccos (- y v / getLength v) * 180 / pi
         in if 0 \<le> x v then up else 360 - up))"

text \<open>
  Modelled from the spec: the conversion from polar form back to a vector, by the same
  angle convention (the unit vector at angle \<open>a\<close> degrees is \<open>(sin a, - cos a)\<close>).
\<close>

definition fromPolar :: "real \<Rightarrow> real \<Rightarrow> IVec2" where
  "fromPolar d a = \<lparr> x = d * sin (a * pi / 180), y = - d * cos (a * pi / 180) \<rparr>"

section \<open>The operations of the tracker\<close>

fun modifiers :: "PointerEvent \<Rightarrow> ModifierKeys" where
  "modifiers (MouseEvent cx cy b k) = k"
| "modifiers (TouchEvent ts k) = k"

text \<open>\<open>event.ctrlKey || event.metaKey || event.shiftKey || event.altKey\<close>\<close>

definition anyModifier :: "ModifierKeys \<Rightarrow> bool" where
  "anyModifier k = (ctrlKey k \<or> metaKey k \<or> shiftKey k \<or> altKey k)"

text \<open>
  The position an event reports (lines 163--173 and 231--238): the client coordinates
  of a mouse event, those of the first touch point of a touch event.
\<close>

fun eventPosition :: "PointerEvent \<Rightarrow> error + IVec2" where
  "eventPosition (MouseEvent cx cy b k) = Inr \<lparr> x = cx, y = cy \<rparr>"
| "eventPosition (TouchEvent [] k) = Inl TypeError"
| "eventPosition (TouchEvent (t # ts) k) = Inr \<lparr> x = clientX t, y = clientY t \<rparr>"

text \<open>\<open>event instanceof MouseEvent && event.buttons === 0\<close>\<close>

fun mouseWithoutButtons :: "PointerEvent \<Rightarrow> bool" where
  "mouseWithoutButtons (MouseEvent cx cy b k) = (b = 0)"
| "mouseWithoutButtons (TouchEvent ts k) = False"

text \<open>\<open>update\<close> (lines 298--305); \<open>activeItemPosition || position\<close> is the case distinction.\<close>

definition update :: "IVec2 \<Rightarrow> IVec2 option \<Rightarrow> InputTracker \<Rightarrow> InputTracker" where
  "update position activeItemPosition t =
     (let item = (case activeItemPosition of None \<Rightarrow> position | Some a \<Rightarrow> a);
          rel = subtract position item
      in t\<lparr> absolutePosition := position,
            relativePosition := rel,
            distance := getLength rel,
            angle := getAngle rel \<rparr>)"

text \<open>
  \<open>inClickZone\<close> (lines 177--179):
  \<open>this.clickPosition && getDistance(this._absolutePosition, this.clickPosition) < this.dragThreshold\<close>
\<close>

definition inClickZone :: "InputTracker \<Rightarrow> bool" where
  "inClickZone t =
     (case clickPosition t of
        None \<Rightarrow> False
      | Some c \<Rightarrow> getDistance (absolutePosition t) c < dragThreshold t)"

text \<open>
  \<open>shouldEnterTurboMode\<close> (lines 190--207), computed on the tracker as it stands after
  the click-zone check.
\<close>

definition shouldEnterTurboMode :: "PointerEvent \<Rightarrow> InputTracker \<Rightarrow> bool" where
  "shouldEnterTurboMode event t =
     (let canEnterTurboMode =
            (enableTurboMode t \<and> \<not> deferredTurboMode t \<and> state t \<noteq> eTurboMode)
      in if canEnterTurboMode then
           (let moved = (if anyKeyPressed t
                         then dragThreshold t < getDistance (absolutePosition t) (keydownPosition t)
                         else False)
            in if moved then True else anyModifier (modifiers event))
         else False)"

text \<open>\<open>onMotionEvent\<close> (lines 156--220).\<close>

definition onMotionEvent ::
  "PointerEvent \<Rightarrow> IVec2 option \<Rightarrow> InputTracker \<Rightarrow> error + InputTracker" where
  "onMotionEvent event activeItemPosition t =
     (if 0 < ignoreMotionEvents t
      then Inr (t\<lparr> ignoreMotionEvents := ignoreMotionEvents t - 1 \<rparr>)
      else
        (case eventPosition event of
           Inl e \<Rightarrow> Inl e
         | Inr position \<Rightarrow>
             (let t1 = update position activeItemPosition t;
                  t2 = (if state t1 = eClicked \<and> \<not> inClickZone t1
                        then t1\<lparr> state := (if enableMarkingMode t1
                                             then eMarkingMode else eReleased) \<rparr>
                        else t1);
                  t3 = (if shouldEnterTurboMode event t2
                        then t2\<lparr> state := eTurboMode \<rparr>
                        else if mouseWithoutButtons event \<and> state t2 = eMarkingMode
                        then t2\<lparr> state := eReleased \<rparr>
                        else t2)
              in Inr (t3\<lparr> emitted := emitted t3 @ [absolutePosition t3] \<rparr>))))"

text \<open>\<open>onPointerDownEvent\<close> (lines 230--243).\<close>

definition onPointerDownEvent ::
  "PointerEvent \<Rightarrow> IVec2 option \<Rightarrow> InputTracker \<Rightarrow> error + InputTracker" where
  "onPointerDownEvent event activeItemPosition t =
     (case eventPosition event of
        Inl e \<Rightarrow> Inl e
      | Inr position \<Rightarrow>
          onMotionEvent event activeItemPosition
            (t\<lparr> clickPosition := Some position, state := eClicked \<rparr>))"

text \<open>\<open>onPointerUpEvent\<close> (lines 249--252).\<close>

definition onPointerUpEvent :: "InputTracker \<Rightarrow> InputTracker" where
  "onPointerUpEvent t = t\<lparr> state := eReleased, clickPosition := None \<rparr>"

text \<open>\<open>onKeyDownEvent\<close> (lines 261--269).\<close>

definition onKeyDownEvent :: "InputTracker \<Rightarrow> InputTracker" where
  "onKeyDownEvent t =
     (if \<not> deferredTurboMode t
      then t\<lparr> anyKeyPressed := True,
              keydownPosition := \<lparr> x = x (absolutePosition t), y = y (absolutePosition t) \<rparr> \<rparr>
      else t)"

text \<open>\<open>onKeyUpEvent\<close> (lines 276--288).\<close>

definition onKeyUpEvent :: "ModifierKeys \<Rightarrow> InputTracker \<Rightarrow> InputTracker" where
  "onKeyUpEvent event t =
     (let stillAnyModifierPressed = anyModifier event
      in if \<not> stillAnyModifierPressed
         then
           (let t1 = t\<lparr> anyKeyPressed := False, deferredTurboMode := False \<rparr>
            in if state t1 = eTurboMode
               then t1\<lparr> state := (case clickPosition t1 of
                                     Some c \<Rightarrow> eMarkingMode
                                   | None \<Rightarrow> eReleased) \<rparr>
               else t1)
         else t)"

text \<open>\<open>ignoreNextMotionEvents\<close> (lines 314--316).\<close>

definition ignoreNextMotionEvents :: "InputTracker \<Rightarrow> InputTracker" where
  "ignoreNextMotionEvents t = t\<lparr> ignoreMotionEvents := 2 \<rparr>"

text \<open>The setter \<open>deferredTurboMode\<close> (lines 144--146).\<close>

definition setDeferredTurboMode :: "bool \<Rightarrow> InputTracker \<Rightarrow> InputTracker" where
  "setDeferredTurboMode val t = t\<lparr> deferredTurboMode := val \<rparr>"

section \<open>Sequences of calls\<close>

text \<open>One call of a public method, as the menu makes it.\<close>

datatype Operation =
    PointerDown PointerEvent "IVec2 option"
  | PointerUp
  | Motion PointerEvent "IVec2 option"
  | KeyDown
  | KeyUp ModifierKeys
  | IgnoreNextMotionEvents
  | SetDeferredTurboMode bool

fun step :: "Operation \<Rightarrow> InputTracker \<Rightarrow> error + InputTracker" where
  "step (PointerDown e a) t = onPointerDownEvent e a t"
| "step PointerUp t = Inr (onPointerUpEvent t)"
| "step (Motion e a) t = onMotionEvent e a t"
| "step KeyDown t = Inr (onKeyDownEvent t)"
| "step (KeyUp k) t = Inr (onKeyUpEvent k t)"
| "step IgnoreNextMotionEvents t = Inr (ignoreNextMotionEvents t)"
| "step (SetDeferredTurboMode b) t = Inr (setDeferredTurboMode b t)"

text \<open>
  Both places that can throw read the touch list before the method has assigned any
  field, so a call that throws leaves the tracker as it was; the host then delivers the
  next event to the same tracker.
\<close>

definition deliver :: "Operation \<Rightarrow> InputTracker \<Rightarrow> InputTracker" where
  "deliver op t = (case step op t of Inl e \<Rightarrow> t | Inr t' \<Rightarrow> t')"

fun run :: "Operation list \<Rightarrow> InputTracker \<Rightarrow> InputTracker" where
  "run [] t = t"
| "run (op # ops) t = run ops (deliver op t)"

text \<open>Events with no modifier held, and with only shift held.\<close>

definition noModifiers :: ModifierKeys where
  "noModifiers = \<lparr> ctrlKey = False, metaKey = False, shiftKey = False, altKey = False \<rparr>"

definition shiftHeld :: ModifierKeys where
  "shiftHeld = \<lparr> ctrlKey = False, metaKey = False, shiftKey = True, altKey = False \<rparr>"

section \<open>Notions used to state the properties\<close>

text \<open>
  The precondition on touch data: a touch event handed to \<open>onPointerDownEvent\<close> or
  \<open>onMotionEvent\<close> carries at least one touch point.
\<close>

fun hasTouchPoint :: "Operation \<Rightarrow> bool" where
  "hasTouchPoint (PointerDown (TouchEvent ts k) a) = (ts \<noteq> [])"
| "hasTouchPoint (Motion (TouchEvent ts k) a) = (ts \<noteq> [])"
| "hasTouchPoint op = True"

text \<open>
  Whether a press is active after a sequence of calls: the last pointer call that
  returned was a press and no release followed it. The second argument says whether a
  press was active before the sequence. A press whose call throws changes nothing.
\<close>

fun pressActive :: "Operation list \<Rightarrow> bool \<Rightarrow> bool" where
  "pressActive [] b = b"
| "pressActive (PointerDown e a # ops) b =
     pressActive ops (case eventPosition e of Inl err \<Rightarrow> b | Inr p \<Rightarrow> True)"
| "pressActive (PointerUp # ops) b = pressActive ops False"
| "pressActive (op # ops) b = pressActive ops b"

section \<open>Evaluating the helpers\<close>

text \<open>Comparisons of a distance with a threshold, without the square root.\<close>

lemma getDistance_less_iff:
  "getDistance a b < r \<longleftrightarrow> 0 < r \<and> (x a - x b)\<^sup>2 + (y a - y b)\<^sup>2 < r\<^sup>2"
proof (cases "0 < r")
  case True
  then have "sqrt (r\<^sup>2) = r" by simp
  then have "sqrt ((x a - x b)\<^sup>2 + (y a - y b)\<^sup>2) < r
      \<longleftrightarrow> sqrt ((x a - x b)\<^sup>2 + (y a - y b)\<^sup>2) < sqrt (r\<^sup>2)"
    by simp
  also have "\<dots> \<longleftrightarrow> (x a - x b)\<^sup>2 + (y a - y b)\<^sup>2 < r\<^sup>2"
    by (rule real_sqrt_less_iff)
  finally show ?thesis using True
    by (simp add: getDistance_def getLength_def subtract_def)
next
  case False
  have "0 \<le> sqrt ((x a - x b)\<^sup>2 + (y a - y b)\<^sup>2)" by simp
  then have "\<not> sqrt ((x a - x b)\<^sup>2 + (y a - y b)\<^sup>2) < r" using False by linarith
  with False show ?thesis
    by (simp add: getDistance_def getLength_def subtract_def)
qed

lemma getDistance_greater_iff:
  "r < getDistance a b \<longleftrightarrow> r < 0 \<or> r\<^sup>2 < (x a - x b)\<^sup>2 + (y a - y b)\<^sup>2"
proof (cases "0 \<le> r")
  case True
  then have "sqrt (r\<^sup>2) = r" by simp
  then have "r < sqrt ((x a - x b)\<^sup>2 + (y a - y b)\<^sup>2)
      \<longleftrightarrow> sqrt (r\<^sup>2) < sqrt ((x a - x b)\<^sup>2 + (y a - y b)\<^sup>2)"
    by simp
  also have "\<dots> \<longleftrightarrow> r\<^sup>2 < (x a - x b)\<^sup>2 + (y a - y b)\<^sup>2"
    by (rule real_sqrt_less_iff)
  finally show ?thesis using True
    by (simp add: getDistance_def getLength_def subtract_def)
next
  case False
  have "0 \<le> sqrt ((x a - x b)\<^sup>2 + (y a - y b)\<^sup>2)" by simp
  then have "r < sqrt ((x a - x b)\<^sup>2 + (y a - y b)\<^sup>2)" using False by linarith
  with False show ?thesis
    by (simp add: getDistance_def getLength_def subtract_def)
qed

lemmas tracker_defs = onMotionEvent_def onPointerDownEvent_def onPointerUpEvent_def
  onKeyDownEvent_def onKeyUpEvent_def ignoreNextMotionEvents_def setDeferredTurboMode_def
  update_def inClickZone_def shouldEnterTurboMode_def

section \<open>Turbo mode\<close>

text \<open>
  C2. A motion event that is not ignored leaves the tracker in turbo mode exactly when
  it was in turbo mode already, or turbo mode is enabled and not deferred and either a
  key is held and the new position is farther than the drag threshold from the
  key-down position, or the event carries a modifier flag. So a tracker in turbo mode
  stays there, and from each other state the trigger alone decides.
\<close>

theorem C2_turbo_entry:
  assumes "ignoreMotionEvents t = 0"
    and "eventPosition event = Inr p"
  shows "\<exists>t'. onMotionEvent event a t = Inr t' \<and>
           (state t' = eTurboMode \<longleftrightarrow>
              state t = eTurboMode \<or>
              (enableTurboMode t \<and> \<not> deferredTurboMode t \<and>
                ((anyKeyPressed t \<and> dragThreshold t < getDistance p (keydownPosition t))
                 \<or> anyModifier (modifiers event))))"
  using assms
  by (auto simp add: onMotionEvent_def update_def shouldEnterTurboMode_def Let_def)

theorem C2_turbo_entry_witness:
  "ignoreMotionEvents newInputTracker = 0
   \<and> eventPosition (MouseEvent 10 10 0 shiftHeld) = Inr \<lparr> x = 10, y = 10 \<rparr>
   \<and> (\<exists>t'. onMotionEvent (MouseEvent 10 10 0 shiftHeld) None newInputTracker = Inr t'
            \<and> state t' = eTurboMode)"
proof -
  have h1: "ignoreMotionEvents newInputTracker = 0" by (simp add: newInputTracker_def)
  have h2: "eventPosition (MouseEvent 10 10 0 shiftHeld) = Inr \<lparr> x = 10, y = 10 \<rparr>" by simp
  have trigger: "enableTurboMode newInputTracker \<and> \<not> deferredTurboMode newInputTracker
      \<and> anyModifier (modifiers (MouseEvent 10 10 0 shiftHeld))"
    by (simp add: newInputTracker_def anyModifier_def shiftHeld_def)
  from C2_turbo_entry [OF h1 h2, of None] obtain t'
    where r: "onMotionEvent (MouseEvent 10 10 0 shiftHeld) None newInputTracker = Inr t'"
      and s: "state t' = eTurboMode \<longleftrightarrow>
              state newInputTracker = eTurboMode \<or>
              (enableTurboMode newInputTracker \<and> \<not> deferredTurboMode newInputTracker \<and>
                ((anyKeyPressed newInputTracker
                  \<and> dragThreshold newInputTracker
                      < getDistance \<lparr> x = 10, y = 10 \<rparr> (keydownPosition newInputTracker))
                 \<or> anyModifier (modifiers (MouseEvent 10 10 0 shiftHeld))))"
    by blast
  from s trigger have "state t' = eTurboMode" by blast
  with r have c: "\<exists>t'. onMotionEvent (MouseEvent 10 10 0 shiftHeld) None newInputTracker = Inr t'
            \<and> state t' = eTurboMode" by blast
  show ?thesis by (intro conjI h1 h2 c)
qed

lemma deliver_keeps_turbo_off:
  assumes "\<not> enableTurboMode t" and "state t \<noteq> eTurboMode"
  shows "\<not> enableTurboMode (deliver op t) \<and> state (deliver op t) \<noteq> eTurboMode"
proof (cases op)
  case (PointerDown e a)
  with assms show ?thesis
    by (auto simp add: deliver_def tracker_defs Let_def split: sum.splits if_splits)
next
  case (Motion e a)
  with assms show ?thesis
    by (auto simp add: deliver_def tracker_defs Let_def split: sum.splits if_splits)
next
  case (KeyUp k)
  with assms show ?thesis
    by (auto simp add: deliver_def tracker_defs Let_def split: option.splits)
qed (use assms in \<open>auto simp add: deliver_def tracker_defs\<close>)

lemma run_keeps_turbo_off:
  "\<not> enableTurboMode t \<Longrightarrow> state t \<noteq> eTurboMode \<Longrightarrow>
     \<not> enableTurboMode (run ops t) \<and> state (run ops t) \<noteq> eTurboMode"
proof (induction ops arbitrary: t)
  case Nil
  then show ?case by simp
next
  case (Cons op ops)
  from deliver_keeps_turbo_off [OF Cons.prems]
  have "\<not> enableTurboMode (deliver op t)" and "state (deliver op t) \<noteq> eTurboMode"
    by simp_all
  then show ?case using Cons.IH by simp
qed

text \<open>
  C6. With turbo mode switched off on a new tracker, whatever the drag threshold and the
  marking-mode setting, no sequence of calls reaches turbo mode.
\<close>

theorem C6_turbo_disabled_never_turbo:
  "state (run ops (newInputTracker\<lparr> dragThreshold := thr, enableMarkingMode := mm,
                                     enableTurboMode := False \<rparr>)) \<noteq> eTurboMode"
  using run_keeps_turbo_off [of "newInputTracker\<lparr> dragThreshold := thr, enableMarkingMode := mm,
                                     enableTurboMode := False \<rparr>" ops]
  by (simp add: newInputTracker_def)

section \<open>Marking mode and touch events\<close>

text \<open>
  C10. A touch motion event that is not ignored, arriving in marking mode without a
  turbo trigger, leaves the tracker in marking mode: the exit to the released state on
  a motion without buttons is taken for mouse events only.
\<close>

theorem C10_touch_motion_keeps_marking:
  assumes "ignoreMotionEvents t = 0"
    and "state t = eMarkingMode"
    and "eventPosition (TouchEvent ts k) = Inr p"
    and "\<not> (enableTurboMode t \<and> \<not> deferredTurboMode t \<and>
            ((anyKeyPressed t \<and> dragThreshold t < getDistance p (keydownPosition t))
             \<or> anyModifier k))"
  shows "\<exists>t'. onMotionEvent (TouchEvent ts k) a t = Inr t' \<and> state t' = eMarkingMode"
  using assms
  by (auto simp add: onMotionEvent_def update_def shouldEnterTurboMode_def Let_def)

theorem C10_touch_motion_keeps_marking_witness:
  "ignoreMotionEvents (newInputTracker\<lparr> state := eMarkingMode \<rparr>) = 0
   \<and> state (newInputTracker\<lparr> state := eMarkingMode \<rparr>) = eMarkingMode
   \<and> eventPosition (TouchEvent [\<lparr> clientX = 50, clientY = 60 \<rparr>] noModifiers)
       = Inr \<lparr> x = 50, y = 60 \<rparr>
   \<and> (\<exists>t'. onMotionEvent (TouchEvent [\<lparr> clientX = 50, clientY = 60 \<rparr>] noModifiers) None
              (newInputTracker\<lparr> state := eMarkingMode \<rparr>) = Inr t'
            \<and> state t' = eMarkingMode)"
proof -
  let ?t = "newInputTracker\<lparr> state := eMarkingMode \<rparr>"
  let ?ts = "[\<lparr> clientX = 50, clientY = 60 \<rparr>]"
  have h1: "ignoreMotionEvents ?t = 0" by (simp add: newInputTracker_def)
  have h2: "state ?t = eMarkingMode" by simp
  have h3: "eventPosition (TouchEvent ?ts noModifiers) = Inr \<lparr> x = 50, y = 60 \<rparr>" by simp
  have h4: "\<not> (enableTurboMode ?t \<and> \<not> deferredTurboMode ?t \<and>
            ((anyKeyPressed ?t
              \<and> dragThreshold ?t < getDistance \<lparr> x = 50, y = 60 \<rparr> (keydownPosition ?t))
             \<or> anyModifier noModifiers))"
    by (simp add: newInputTracker_def anyModifier_def noModifiers_def)
  have c: "\<exists>t'. onMotionEvent (TouchEvent ?ts noModifiers) None ?t = Inr t'
                \<and> state t' = eMarkingMode"
    by (rule C10_touch_motion_keeps_marking [OF h1 h2 h3 h4])
  show ?thesis by (intro conjI h1 h2 h3 c)
qed

section \<open>Errors\<close>

lemma onMotionEvent_returns:
  "eventPosition e = Inr p \<Longrightarrow> \<exists>t'. onMotionEvent e a t = Inr t'"
  by (simp add: onMotionEvent_def Let_def)

text \<open>
  C9. When every touch event handed to \<open>onPointerDownEvent\<close> or \<open>onMotionEvent\<close> has a
  touch point, no call of a public method throws: each returns a tracker.
\<close>

theorem C9_no_error:
  assumes "hasTouchPoint op"
  shows "\<exists>t'. step op t = Inr t'"
proof (cases op)
  case (PointerDown e a)
  with assms obtain p where "eventPosition e = Inr p"
    by (cases e rule: eventPosition.cases) auto
  with PointerDown show ?thesis
    by (simp add: onPointerDownEvent_def onMotionEvent_returns)
next
  case (Motion e a)
  with assms obtain p where "eventPosition e = Inr p"
    by (cases e rule: eventPosition.cases) auto
  with Motion show ?thesis
    by (simp add: onMotionEvent_returns)
qed simp_all

theorem C9_no_error_witness:
  "hasTouchPoint (Motion (TouchEvent [\<lparr> clientX = 50, clientY = 60 \<rparr>] noModifiers) None)
   \<and> (\<exists>t'. step (Motion (TouchEvent [\<lparr> clientX = 50, clientY = 60 \<rparr>] noModifiers) None)
              newInputTracker = Inr t')"
proof -
  have h: "hasTouchPoint (Motion (TouchEvent [\<lparr> clientX = 50, clientY = 60 \<rparr>] noModifiers) None)"
    by simp
  have c: "\<exists>t'. step (Motion (TouchEvent [\<lparr> clientX = 50, clientY = 60 \<rparr>] noModifiers) None)
              newInputTracker = Inr t'"
    by (rule C9_no_error [OF h])
  show ?thesis by (intro conjI h c)
qed

section \<open>Ignored motion events\<close>

text \<open>
  C8. After \<open>ignoreNextMotionEvents\<close> the next two motion events change nothing but the
  counter of events to ignore: every other field, the list of emitted \<open>pointer-motion\<close>
  events included, stays as it was, whatever the two events are. The third motion event
  is handled as by a tracker whose counter is 0: it stores the position of the event and
  emits it.
\<close>

theorem C8_ignored_motion_events:
  "onMotionEvent e1 a1 (ignoreNextMotionEvents t) = Inr (t\<lparr> ignoreMotionEvents := 1 \<rparr>)
   \<and> onMotionEvent e2 a2 (t\<lparr> ignoreMotionEvents := 1 \<rparr>) = Inr (t\<lparr> ignoreMotionEvents := 0 \<rparr>)
   \<and> run [IgnoreNextMotionEvents, Motion e1 a1, Motion e2 a2, Motion e3 a3] t
       = deliver (Motion e3 a3) (t\<lparr> ignoreMotionEvents := 0 \<rparr>)
   \<and> (eventPosition e3 = Inr p \<longrightarrow>
        (\<exists>t3. onMotionEvent e3 a3 (t\<lparr> ignoreMotionEvents := 0 \<rparr>) = Inr t3
             \<and> absolutePosition t3 = p
             \<and> emitted t3 = emitted t @ [p]))"
proof -
  have first: "onMotionEvent e1 a1 (ignoreNextMotionEvents t) = Inr (t\<lparr> ignoreMotionEvents := 1 \<rparr>)"
    by (simp add: onMotionEvent_def ignoreNextMotionEvents_def)
  have second: "onMotionEvent e2 a2 (t\<lparr> ignoreMotionEvents := 1 \<rparr>)
      = Inr (t\<lparr> ignoreMotionEvents := 0 \<rparr>)"
    by (simp add: onMotionEvent_def)
  have composed: "run [IgnoreNextMotionEvents, Motion e1 a1, Motion e2 a2, Motion e3 a3] t
       = deliver (Motion e3 a3) (t\<lparr> ignoreMotionEvents := 0 \<rparr>)"
    by (simp only: run.simps deliver_def step.simps first second sum.case)
  have third: "eventPosition e3 = Inr p \<longrightarrow>
        (\<exists>t3. onMotionEvent e3 a3 (t\<lparr> ignoreMotionEvents := 0 \<rparr>) = Inr t3
             \<and> absolutePosition t3 = p
             \<and> emitted t3 = emitted t @ [p])"
    by (auto simp add: onMotionEvent_def update_def Let_def)
  show ?thesis by (intro conjI first second composed third)
qed

theorem C8_ignored_motion_events_witness:
  "eventPosition (MouseEvent 30 40 0 noModifiers) = Inr \<lparr> x = 30, y = 40 \<rparr>
   \<and> onMotionEvent (MouseEvent 10 10 0 shiftHeld) None (ignoreNextMotionEvents newInputTracker)
       = Inr (newInputTracker\<lparr> ignoreMotionEvents := 1 \<rparr>)
   \<and> onMotionEvent (TouchEvent [] noModifiers) None (newInputTracker\<lparr> ignoreMotionEvents := 1 \<rparr>)
       = Inr (newInputTracker\<lparr> ignoreMotionEvents := 0 \<rparr>)
   \<and> (\<exists>t3. onMotionEvent (MouseEvent 30 40 0 noModifiers) None
                (newInputTracker\<lparr> ignoreMotionEvents := 0 \<rparr>) = Inr t3
             \<and> absolutePosition t3 = \<lparr> x = 30, y = 40 \<rparr>
             \<and> emitted t3 = emitted newInputTracker @ [\<lparr> x = 30, y = 40 \<rparr>])"
proof -
  have h: "eventPosition (MouseEvent 30 40 0 noModifiers) = Inr \<lparr> x = 30, y = 40 \<rparr>" by simp
  note all = C8_ignored_motion_events [where ?e1.0 = "MouseEvent 10 10 0 shiftHeld"
      and ?a1.0 = None and t = newInputTracker and ?e2.0 = "TouchEvent [] noModifiers"
      and ?a2.0 = None and ?e3.0 = "MouseEvent 30 40 0 noModifiers" and ?a3.0 = None
      and p = "\<lparr> x = 30, y = 40 \<rparr>"]
  from all have c1: "onMotionEvent (MouseEvent 10 10 0 shiftHeld) None (ignoreNextMotionEvents newInputTracker)
       = Inr (newInputTracker\<lparr> ignoreMotionEvents := 1 \<rparr>)" by (rule conjunct1)
  from all have c2: "onMotionEvent (TouchEvent [] noModifiers) None (newInputTracker\<lparr> ignoreMotionEvents := 1 \<rparr>)
       = Inr (newInputTracker\<lparr> ignoreMotionEvents := 0 \<rparr>)" by (rule conjunct1 [OF conjunct2])
  from all have "eventPosition (MouseEvent 30 40 0 noModifiers) = Inr \<lparr> x = 30, y = 40 \<rparr> \<longrightarrow>
     (\<exists>t3. onMotionEvent (MouseEvent 30 40 0 noModifiers) None
                (newInputTracker\<lparr> ignoreMotionEvents := 0 \<rparr>) = Inr t3
             \<and> absolutePosition t3 = \<lparr> x = 30, y = 40 \<rparr>
             \<and> emitted t3 = emitted newInputTracker @ [\<lparr> x = 30, y = 40 \<rparr>])"
    by (rule conjunct2 [OF conjunct2 [OF conjunct2]])
  with h have c3: "\<exists>t3. onMotionEvent (MouseEvent 30 40 0 noModifiers) None
                (newInputTracker\<lparr> ignoreMotionEvents := 0 \<rparr>) = Inr t3
             \<and> absolutePosition t3 = \<lparr> x = 30, y = 40 \<rparr>
             \<and> emitted t3 = emitted newInputTracker @ [\<lparr> x = 30, y = 40 \<rparr>]" by (rule rev_mp)
  show ?thesis by (intro conjI h c1 c2 c3)
qed

section \<open>Releasing the keys in turbo mode\<close>

lemma onKeyUpEvent_leaves_turbo:
  "state t = eTurboMode \<Longrightarrow> \<not> anyModifier k \<Longrightarrow>
     state (onKeyUpEvent k t) = (if clickPosition t \<noteq> None then eMarkingMode else eReleased)"
  by (auto simp add: onKeyUpEvent_def Let_def split: option.splits)

text \<open>
  C1. A new tracker that has seen no press at all enters turbo mode on a motion event
  with shift held; the key-up event with no modifier left then puts it into marking
  mode, not into the released state, because \<open>clickPosition\<close> starts out as the point
  (0, 0) and not as \<open>null\<close>.
\<close>

theorem C1_keyup_without_press_marks:
  "state (run [Motion (MouseEvent 10 10 0 shiftHeld) None] newInputTracker) = eTurboMode
   \<and> \<not> pressActive [Motion (MouseEvent 10 10 0 shiftHeld) None] False
   \<and> \<not> anyModifier noModifiers
   \<and> state (run [Motion (MouseEvent 10 10 0 shiftHeld) None, KeyUp noModifiers] newInputTracker)
       = eMarkingMode"
  by (simp add: deliver_def tracker_defs newInputTracker_def noModifiers_def shiftHeld_def
      anyModifier_def getDistance_less_iff Let_def)

section \<open>The click position\<close>

lemma onMotionEvent_clickPosition:
  "onMotionEvent e a t = Inr t' \<Longrightarrow> clickPosition t' = clickPosition t"
  by (auto simp add: onMotionEvent_def update_def Let_def split: if_splits sum.splits)

lemma onPointerDownEvent_clickPosition:
  "onPointerDownEvent e a t = Inr t' \<Longrightarrow> eventPosition e = Inr c \<Longrightarrow> clickPosition t' = Some c"
  by (auto simp add: onPointerDownEvent_def dest: onMotionEvent_clickPosition)

text \<open>
  C3. On a new tracker, before any call, \<open>clickPosition\<close> is not \<open>null\<close> although no press
  is active.
\<close>

theorem C3_initial_clickPosition:
  "clickPosition (run [] newInputTracker) \<noteq> None \<and> \<not> pressActive [] False"
  by (simp add: newInputTracker_def)

text \<open>
  Every call keeps the correspondence once it holds: a press that returns sets
  \<open>clickPosition\<close>, a release clears it, and no other call touches it. So the initial
  value is the only place where the field and the press disagree.
\<close>

lemma deliver_clickPosition:
  "(clickPosition (deliver op t) \<noteq> None) =
     (case op of
        PointerDown e a \<Rightarrow> (case eventPosition e of Inl err \<Rightarrow> clickPosition t \<noteq> None | Inr p \<Rightarrow> True)
      | PointerUp \<Rightarrow> False
      | _ \<Rightarrow> clickPosition t \<noteq> None)"
proof (cases op)
  case (PointerDown e a)
  show ?thesis
  proof (cases "eventPosition e")
    case (Inl err)
    with PointerDown show ?thesis by (simp add: deliver_def onPointerDownEvent_def)
  next
    case (Inr p)
    from onMotionEvent_returns [OF Inr]
    obtain t' where "onPointerDownEvent e a t = Inr t'"
      unfolding onPointerDownEvent_def using Inr by force
    with Inr PointerDown show ?thesis
      by (auto simp add: deliver_def dest: onPointerDownEvent_clickPosition)
  qed
next
  case (Motion e a)
  then show ?thesis
    by (auto simp add: deliver_def split: sum.splits dest: onMotionEvent_clickPosition)
qed (auto simp add: deliver_def tracker_defs Let_def)

lemma clickPosition_tracks_press:
  "(clickPosition t \<noteq> None) = b \<Longrightarrow> (clickPosition (run ops t) \<noteq> None) = pressActive ops b"
proof (induction ops arbitrary: t b)
  case Nil
  then show ?case by simp
next
  case (Cons op ops)
  show ?case
  proof (cases op)
    case (PointerDown e a)
    have "(clickPosition (deliver op t) \<noteq> None)
        = (case eventPosition e of Inl err \<Rightarrow> b | Inr p \<Rightarrow> True)"
      unfolding deliver_clickPosition PointerDown using Cons.prems
      by (cases "eventPosition e") simp_all
    from Cons.IH [OF this] PointerDown show ?thesis by simp
  next
    case PointerUp
    have "(clickPosition (deliver op t) \<noteq> None) = False"
      using PointerUp deliver_clickPosition [of op t] by simp
    from Cons.IH [OF this] PointerUp show ?thesis by simp
  next
    case (Motion e a)
    have "(clickPosition (deliver op t) \<noteq> None) = b"
      using Cons.prems Motion deliver_clickPosition [of op t] by simp
    from Cons.IH [OF this] Motion show ?thesis by simp
  next
    case KeyDown
    have "(clickPosition (deliver op t) \<noteq> None) = b"
      using Cons.prems KeyDown deliver_clickPosition [of op t] by simp
    from Cons.IH [OF this] KeyDown show ?thesis by simp
  next
    case (KeyUp k)
    have "(clickPosition (deliver op t) \<noteq> None) = b"
      using Cons.prems KeyUp deliver_clickPosition [of op t] by simp
    from Cons.IH [OF this] KeyUp show ?thesis by simp
  next
    case IgnoreNextMotionEvents
    have "(clickPosition (deliver op t) \<noteq> None) = b"
      using Cons.prems IgnoreNextMotionEvents deliver_clickPosition [of op t] by simp
    from Cons.IH [OF this] IgnoreNextMotionEvents show ?thesis by simp
  next
    case (SetDeferredTurboMode v)
    have "(clickPosition (deliver op t) \<noteq> None) = b"
      using Cons.prems SetDeferredTurboMode deliver_clickPosition [of op t] by simp
    from Cons.IH [OF this] SetDeferredTurboMode show ?thesis by simp
  qed
qed

section \<open>From a click to a drag\<close>

text \<open>
  The example of the spec: threshold 15, press at (100, 100), motion to (105, 103),
  motion to (120, 100), release.
\<close>

lemma spec_example_click_then_drag:
  "state (run [PointerDown (MouseEvent 100 100 1 noModifiers) None] newInputTracker) = eClicked
   \<and> state (run [PointerDown (MouseEvent 100 100 1 noModifiers) None,
                 Motion (MouseEvent 105 103 1 noModifiers) None] newInputTracker) = eClicked
   \<and> state (run [PointerDown (MouseEvent 100 100 1 noModifiers) None,
                 Motion (MouseEvent 105 103 1 noModifiers) None,
                 Motion (MouseEvent 120 100 1 noModifiers) None] newInputTracker) = eMarkingMode
   \<and> state (run [PointerDown (MouseEvent 100 100 1 noModifiers) None,
                 Motion (MouseEvent 105 103 1 noModifiers) None,
                 Motion (MouseEvent 120 100 1 noModifiers) None,
                 PointerUp] newInputTracker) = eReleased
   \<and> clickPosition (run [PointerDown (MouseEvent 100 100 1 noModifiers) None,
                 Motion (MouseEvent 105 103 1 noModifiers) None,
                 Motion (MouseEvent 120 100 1 noModifiers) None,
                 PointerUp] newInputTracker) = None"
  by (simp add: deliver_def tracker_defs newInputTracker_def noModifiers_def anyModifier_def
      getDistance_less_iff getDistance_greater_iff Let_def)

text \<open>
  A motion strictly closer to the click position than the drag threshold, with no key
  held and no modifier flag, keeps the tracker in the clicked state.
\<close>

lemma click_kept_strictly_inside:
  assumes "state t = eClicked"
    and "clickPosition t = Some c"
    and "eventPosition e = Inr p"
    and "getDistance p c < dragThreshold t"
    and "\<not> anyKeyPressed t" and "\<not> anyModifier (modifiers e)"
  shows "\<exists>t'. onMotionEvent e a t = Inr t' \<and> state t' = eClicked \<and> clickPosition t' = Some c
     \<and> \<not> anyKeyPressed t' \<and> dragThreshold t' = dragThreshold t"
  using assms
  by (auto simp add: onMotionEvent_def update_def inClickZone_def shouldEnterTurboMode_def Let_def)

text \<open>
  So a press followed by motions that all stay strictly inside the threshold keeps the
  clicked state until the release, which gives the released state.
\<close>

lemma click_lasts_strictly_inside:
  assumes "state t = eClicked"
    and "clickPosition t = Some c"
    and "\<not> anyKeyPressed t"
    and "\<forall>m \<in> set ms. \<exists>p. eventPosition (fst m) = Inr p \<and> getDistance p c < dragThreshold t
           \<and> \<not> anyModifier (modifiers (fst m))"
  shows "state (run (map (\<lambda>m. Motion (fst m) (snd m)) ms) t) = eClicked
     \<and> state (run (map (\<lambda>m. Motion (fst m) (snd m)) ms @ [PointerUp]) t) = eReleased"
  using assms
proof (induction ms arbitrary: t)
  case Nil
  then show ?case by (simp add: deliver_def onPointerUpEvent_def)
next
  case (Cons m ms)
  from Cons.prems(4) obtain p where p: "eventPosition (fst m) = Inr p"
      "getDistance p c < dragThreshold t" "\<not> anyModifier (modifiers (fst m))"
    by auto
  define t' where "t' = deliver (Motion (fst m) (snd m)) t"
  from click_kept_strictly_inside [OF Cons.prems(1,2) p(1,2) Cons.prems(3) p(3), of "snd m"]
  have keep: "state t' = eClicked \<and> clickPosition t' = Some c \<and> \<not> anyKeyPressed t'
      \<and> dragThreshold t' = dragThreshold t"
    by (auto simp add: t'_def deliver_def)
  have rest: "\<forall>m \<in> set ms. \<exists>p. eventPosition (fst m) = Inr p \<and> getDistance p c < dragThreshold t'
           \<and> \<not> anyModifier (modifiers (fst m))"
    using Cons.prems(4) keep by simp
  from Cons.IH [of t'] keep rest show ?case by (simp add: t'_def)
qed

text \<open>
  C4. With the default threshold of 15, a press at (100, 100) followed by a motion to
  (115, 100), a displacement of exactly 15 that does not exceed the threshold, leaves
  the clicked state for marking mode: \<open>inClickZone\<close> compares with \<open><\<close>.
\<close>

theorem C4_threshold_reached_promotes:
  "map_sum id state
     (onPointerDownEvent (MouseEvent 100 100 1 noModifiers) None newInputTracker) = Inr eClicked
   \<and> \<not> dragThreshold newInputTracker < getDistance \<lparr> x = 115, y = 100 \<rparr> \<lparr> x = 100, y = 100 \<rparr>
   \<and> \<not> anyKeyPressed
         (deliver (PointerDown (MouseEvent 100 100 1 noModifiers) None) newInputTracker)
   \<and> \<not> anyModifier (modifiers (MouseEvent 115 100 1 noModifiers))
   \<and> map_sum id state
       (onMotionEvent (MouseEvent 115 100 1 noModifiers) None
          (deliver (PointerDown (MouseEvent 100 100 1 noModifiers) None) newInputTracker))
       = Inr eMarkingMode"
  by (simp add: deliver_def tracker_defs newInputTracker_def noModifiers_def anyModifier_def
      getDistance_less_iff getDistance_greater_iff Let_def)

text \<open>
  C5 does not hold for every motion event: after a press at (100, 100) a mouse motion
  to (120, 100) that reports no button held, with marking mode enabled, no key held and
  no modifier flag, ends in the released state, not in marking mode.
\<close>

theorem C5_counterexample:
  "map_sum id state
     (onPointerDownEvent (MouseEvent 100 100 1 noModifiers) None newInputTracker) = Inr eClicked
   \<and> enableMarkingMode newInputTracker
   \<and> dragThreshold newInputTracker < getDistance \<lparr> x = 120, y = 100 \<rparr> \<lparr> x = 100, y = 100 \<rparr>
   \<and> \<not> anyKeyPressed
         (deliver (PointerDown (MouseEvent 100 100 1 noModifiers) None) newInputTracker)
   \<and> \<not> anyModifier (modifiers (MouseEvent 120 100 0 noModifiers))
   \<and> map_sum id state
       (onMotionEvent (MouseEvent 120 100 0 noModifiers) None
          (deliver (PointerDown (MouseEvent 100 100 1 noModifiers) None) newInputTracker))
       = Inr eReleased"
  by (simp add: deliver_def tracker_defs newInputTracker_def noModifiers_def anyModifier_def
      getDistance_less_iff getDistance_greater_iff Let_def)

text \<open>
  C5, amended. After a press that leaves the tracker in the clicked state, a motion
  event that is not ignored, lies farther than the drag threshold from the press point
  and has no turbo trigger ends in marking mode when marking mode is enabled and the
  event is not a mouse event without buttons, and in the released state otherwise.
\<close>

theorem C5_promotion_after_press:
  assumes "onPointerDownEvent ev0 a0 t0 = Inr t1"
    and "eventPosition ev0 = Inr c"
    and "state t1 = eClicked"
    and "ignoreMotionEvents t1 = 0"
    and "eventPosition ev1 = Inr p"
    and "dragThreshold t1 < getDistance p c"
    and "\<not> (enableTurboMode t1 \<and> \<not> deferredTurboMode t1 \<and>
            ((anyKeyPressed t1 \<and> dragThreshold t1 < getDistance p (keydownPosition t1))
             \<or> anyModifier (modifiers ev1)))"
  shows "\<exists>t2. onMotionEvent ev1 a1 t1 = Inr t2 \<and>
           state t2 = (if enableMarkingMode t1 \<and> \<not> mouseWithoutButtons ev1
                       then eMarkingMode else eReleased)"
proof -
  from assms(1,2) have cp: "clickPosition t1 = Some c"
    by (rule onPointerDownEvent_clickPosition)
  from assms(6) have "\<not> getDistance p c < dragThreshold t1" by simp
  with cp assms(3,4,5,7) show ?thesis
    by (auto simp add: onMotionEvent_def update_def inClickZone_def shouldEnterTurboMode_def Let_def)
qed

theorem C5_promotion_after_press_witness:
  "onPointerDownEvent (MouseEvent 100 100 1 noModifiers) None newInputTracker
     = Inr (deliver (PointerDown (MouseEvent 100 100 1 noModifiers) None) newInputTracker)
   \<and> eventPosition (MouseEvent 100 100 1 noModifiers) = Inr \<lparr> x = 100, y = 100 \<rparr>
   \<and> state (deliver (PointerDown (MouseEvent 100 100 1 noModifiers) None) newInputTracker) = eClicked
   \<and> eventPosition (MouseEvent 120 100 1 noModifiers) = Inr \<lparr> x = 120, y = 100 \<rparr>
   \<and> (\<exists>t2. onMotionEvent (MouseEvent 120 100 1 noModifiers) None
              (deliver (PointerDown (MouseEvent 100 100 1 noModifiers) None) newInputTracker) = Inr t2
            \<and> state t2 = eMarkingMode)"
proof -
  let ?ev0 = "MouseEvent 100 100 1 noModifiers"
  let ?ev1 = "MouseEvent 120 100 1 noModifiers"
  let ?t1 = "deliver (PointerDown ?ev0 None) newInputTracker"
  note ev = deliver_def tracker_defs newInputTracker_def noModifiers_def anyModifier_def
      getDistance_less_iff getDistance_greater_iff Let_def
  have h1: "onPointerDownEvent ?ev0 None newInputTracker = Inr ?t1"
    by (simp add: ev)
  have h2: "eventPosition ?ev0 = Inr \<lparr> x = 100, y = 100 \<rparr>" by simp
  have h3: "state ?t1 = eClicked" by (simp add: ev)
  have h4: "ignoreMotionEvents ?t1 = 0" by (simp add: ev)
  have h5: "eventPosition ?ev1 = Inr \<lparr> x = 120, y = 100 \<rparr>" by simp
  have h6: "dragThreshold ?t1 < getDistance \<lparr> x = 120, y = 100 \<rparr> \<lparr> x = 100, y = 100 \<rparr>"
    by (simp add: ev)
  have h7: "\<not> (enableTurboMode ?t1 \<and> \<not> deferredTurboMode ?t1 \<and>
            ((anyKeyPressed ?t1
               \<and> dragThreshold ?t1 < getDistance \<lparr> x = 120, y = 100 \<rparr> (keydownPosition ?t1))
             \<or> anyModifier (modifiers ?ev1)))"
    by (simp add: ev)
  have m: "enableMarkingMode ?t1 \<and> \<not> mouseWithoutButtons ?ev1"
    by (simp add: ev)
  from C5_promotion_after_press [OF h1 h2 h3 h4 h5 h6 h7, of None] obtain t2
    where r: "onMotionEvent ?ev1 None ?t1 = Inr t2"
      and s: "state t2 = (if enableMarkingMode ?t1 \<and> \<not> mouseWithoutButtons ?ev1
                       then eMarkingMode else eReleased)"
    by blast
  from s m have "state t2 = eMarkingMode" by simp
  with r have c: "\<exists>t2. onMotionEvent ?ev1 None ?t1 = Inr t2 \<and> state t2 = eMarkingMode" by blast
  show ?thesis by (intro conjI h1 h2 h3 h5 c)
qed

section \<open>Position, distance and angle\<close>

lemma getLength_nonneg: "0 \<le> getLength v"
  by (simp add: getLength_def)

lemma getLength_zero_iff: "getLength v = 0 \<longleftrightarrow> x v = 0 \<and> y v = 0"
  by (simp add: getLength_def sum_power2_eq_zero_iff)

text \<open>The angle follows the convention of the spec at the four compass points.\<close>

lemma getAngle_compass:
  "getAngle \<lparr> x = 0, y = - 1 \<rparr> = 0 \<and> getAngle \<lparr> x = 1, y = 0 \<rparr> = 90
   \<and> getAngle \<lparr> x = 0, y = 1 \<rparr> = 180 \<and> getAngle \<lparr> x = - 1, y = 0 \<rparr> = 270"
  by (simp add: getAngle_def getLength_def Let_def)

text \<open>Length and angle of a vector give the vector back.\<close>

lemma fromPolar_getAngle:
  fixes v :: IVec2
  shows "fromPolar (getLength v) (getAngle v) = v"
proof (cases "getLength v = 0")
  case True
  then have "x v = 0" and "y v = 0" by (simp_all add: getLength_zero_iff)
  with True show ?thesis by (simp add: fromPolar_def)
next
  case False
  define d where "d = getLength v"
  define c where "c = - y v / d"
  define th where "th = arccos c"
  from False have dpos: "0 < d"
    using getLength_nonneg [of v] by (simp add: d_def)
  have dsq: "d\<^sup>2 = (x v)\<^sup>2 + (y v)\<^sup>2"
    by (simp add: d_def getLength_def)
  have "(y v)\<^sup>2 \<le> d\<^sup>2" by (simp add: dsq)
  then have "\<bar>y v\<bar> \<le> d" using dpos by (simp add: abs_le_square_iff [symmetric])
  then have cb: "\<bar>c\<bar> \<le> 1" using dpos by (simp add: c_def)
  have cosv: "cos th = c" unfolding th_def using cb by (rule cos_arccos_abs)
  have dnz: "d\<^sup>2 \<noteq> 0" using dpos by simp
  have "1 - c\<^sup>2 = (d\<^sup>2 - (y v)\<^sup>2) / d\<^sup>2"
    using dnz by (simp add: c_def power_divide diff_divide_distrib)
  also have "\<dots> = (x v)\<^sup>2 / d\<^sup>2" by (simp add: dsq)
  finally have "1 - c\<^sup>2 = (x v)\<^sup>2 / d\<^sup>2" .
  then have "sqrt (1 - c\<^sup>2) = \<bar>x v\<bar> / d"
    using dpos by (simp add: real_sqrt_divide)
  moreover have "sin th = sqrt (1 - c\<^sup>2)" unfolding th_def using cb by (rule sin_arccos_abs)
  ultimately have sinv: "sin th = \<bar>x v\<bar> / d" by simp
  have ycomp: "- d * cos th = y v" using dpos by (simp add: cosv c_def)
  show ?thesis
  proof (cases "0 \<le> x v")
    case True
    have ang: "getAngle v * pi / 180 = th"
      using False True by (simp add: getAngle_def Let_def th_def c_def d_def)
    have "d * sin th = x v" using dpos True by (simp add: sinv)
    with ycomp show ?thesis
      by (simp add: fromPolar_def ang d_def [symmetric])
  next
    case neg: False
    have ang: "getAngle v * pi / 180 = 2 * pi - th"
      using False neg by (simp add: getAngle_def Let_def th_def c_def d_def field_simps)
    have "d * sin (2 * pi - th) = x v" using dpos neg by (simp add: sinv)
    moreover have "- d * cos (2 * pi - th) = y v" using ycomp by simp
    ultimately show ?thesis
      by (simp add: fromPolar_def ang d_def [symmetric])
  qed
qed

text \<open>
  C7. After \<open>update\<close> the absolute position is the given position, the relative position
  is the given position minus the position of the active item (the zero vector when no
  item position is given), the distance is the Euclidean length of the relative
  position, and distance and angle converted back from polar form give the relative
  position (exactly, over the real numbers). A motion event that is not ignored leaves
  the four fields as \<open>update\<close> set them.
\<close>

theorem C7_update_geometry:
  "absolutePosition (update p (Some q) t) = p
   \<and> relativePosition (update p (Some q) t) = \<lparr> x = x p - x q, y = y p - y q \<rparr>
   \<and> absolutePosition (update p None t) = p
   \<and> relativePosition (update p None t) = \<lparr> x = 0, y = 0 \<rparr>
   \<and> distance (update p a t)
       = sqrt ((x (relativePosition (update p a t)))\<^sup>2 + (y (relativePosition (update p a t)))\<^sup>2)
   \<and> fromPolar (distance (update p a t)) (angle (update p a t)) = relativePosition (update p a t)
   \<and> (ignoreMotionEvents t = 0 \<and> eventPosition e = Inr p \<longrightarrow>
        (\<exists>t'. onMotionEvent e a t = Inr t'
            \<and> absolutePosition t' = absolutePosition (update p a t)
            \<and> relativePosition t' = relativePosition (update p a t)
            \<and> distance t' = distance (update p a t)
            \<and> angle t' = angle (update p a t)))"
proof -
  have rt: "fromPolar (distance (update p a t)) (angle (update p a t))
      = relativePosition (update p a t)"
    by (simp add: update_def Let_def fromPolar_getAngle)
  have mo: "ignoreMotionEvents t = 0 \<and> eventPosition e = Inr p \<longrightarrow>
        (\<exists>t'. onMotionEvent e a t = Inr t'
            \<and> absolutePosition t' = absolutePosition (update p a t)
            \<and> relativePosition t' = relativePosition (update p a t)
            \<and> distance t' = distance (update p a t)
            \<and> angle t' = angle (update p a t))"
    by (auto simp add: onMotionEvent_def Let_def)
  show ?thesis
    by (intro conjI rt mo) (simp_all add: update_def Let_def subtract_def getLength_def)
qed

theorem C7_update_geometry_witness:
  "ignoreMotionEvents newInputTracker = 0
   \<and> eventPosition (MouseEvent 33 44 0 noModifiers) = Inr \<lparr> x = 33, y = 44 \<rparr>
   \<and> (\<exists>t'. onMotionEvent (MouseEvent 33 44 0 noModifiers) (Some \<lparr> x = 30, y = 40 \<rparr>)
              newInputTracker = Inr t'
            \<and> absolutePosition t' = \<lparr> x = 33, y = 44 \<rparr>
            \<and> relativePosition t' = \<lparr> x = 3, y = 4 \<rparr>
            \<and> distance t' = 5
            \<and> fromPolar (distance t') (angle t') = \<lparr> x = 3, y = 4 \<rparr>)"
proof -
  let ?e = "MouseEvent 33 44 0 noModifiers"
  let ?p = "\<lparr> x = 33, y = 44 \<rparr>"
  let ?a = "Some \<lparr> x = 30, y = 40 \<rparr>"
  let ?u = "update ?p ?a newInputTracker"
  have h1: "ignoreMotionEvents newInputTracker = 0" by (simp add: newInputTracker_def)
  have h2: "eventPosition ?e = Inr ?p" by simp
  note all = C7_update_geometry [where p = ?p and q = "\<lparr> x = 30, y = 40 \<rparr>"
      and t = newInputTracker and a = ?a and e = ?e]
  from all have ab: "absolutePosition ?u = ?p" by (rule conjunct1)
  from all have "relativePosition ?u = \<lparr> x = x ?p - x \<lparr> x = 30, y = 40 \<rparr>, y = y ?p - y \<lparr> x = 30, y = 40 \<rparr> \<rparr>"
    by (rule conjunct1 [OF conjunct2])
  then have rel: "relativePosition ?u = \<lparr> x = 3, y = 4 \<rparr>" by simp
  from all have "distance ?u = sqrt ((x (relativePosition ?u))\<^sup>2 + (y (relativePosition ?u))\<^sup>2)"
    by (rule conjunct1 [OF conjunct2 [OF conjunct2 [OF conjunct2 [OF conjunct2]]]])
  then have "distance ?u = sqrt (5\<^sup>2)" by (simp add: rel)
  then have di: "distance ?u = 5" by simp
  from all have "fromPolar (distance ?u) (angle ?u) = relativePosition ?u"
    by (rule conjunct1 [OF conjunct2 [OF conjunct2 [OF conjunct2 [OF conjunct2 [OF conjunct2]]]]])
  then have rt: "fromPolar (distance ?u) (angle ?u) = \<lparr> x = 3, y = 4 \<rparr>" by (simp only: rel)
  from all have "ignoreMotionEvents newInputTracker = 0 \<and> eventPosition ?e = Inr ?p \<longrightarrow>
        (\<exists>t'. onMotionEvent ?e ?a newInputTracker = Inr t'
            \<and> absolutePosition t' = absolutePosition ?u
            \<and> relativePosition t' = relativePosition ?u
            \<and> distance t' = distance ?u
            \<and> angle t' = angle ?u)"
    by (rule conjunct2 [OF conjunct2 [OF conjunct2 [OF conjunct2 [OF conjunct2 [OF conjunct2]]]]])
  with h1 h2 obtain t' where r: "onMotionEvent ?e ?a newInputTracker = Inr t'"
    and f: "absolutePosition t' = absolutePosition ?u" "relativePosition t' = relativePosition ?u"
      "distance t' = distance ?u" "angle t' = angle ?u"
    by blast
  from r f ab rel di rt
  have c: "\<exists>t'. onMotionEvent ?e ?a newInputTracker = Inr t'
            \<and> absolutePosition t' = \<lparr> x = 33, y = 44 \<rparr>
            \<and> relativePosition t' = \<lparr> x = 3, y = 4 \<rparr>
            \<and> distance t' = 5
            \<and> fromPolar (distance t') (angle t') = \<lparr> x = 3, y = 4 \<rparr>"
    by simp
  show ?thesis by (intro conjI h1 h2 c)
qed

end
